theory Spec2Isabelle
  imports Main
begin

section \<open>Text primitives of the Python source\<close>

text \<open>
  \<^verbatim>\<open>vision.py\<close> works on Python \<^verbatim>\<open>str\<close> values. They are modelled as \<^typ>\<open>string\<close>; a
  \<^typ>\<open>char\<close> stands for one code point below 256. The fence logic only looks at the
  backtick and the line feed, so nothing below depends on that bound.
\<close>

definition newline :: char where
  "newline = CHR 0x0A"

definition apostrophe :: char where
  "apostrophe = CHR 0x27"

definition dq :: char where
  "dq = CHR 0x22"

definition backslash :: char where
  "backslash = CHR 0x5C"

definition fence :: string where
  "fence = ''```''"

text \<open>\<^verbatim>\<open>s.startswith(p)\<close>\<close>

fun startswith :: "string \<Rightarrow> string \<Rightarrow> bool" where
  "startswith s [] = True"
| "startswith [] (p # ps) = False"
| "startswith (c # cs) (p # ps) = (c = p \<and> startswith cs ps)"

text \<open>
  \<^verbatim>\<open>s.split("\n")\<close>: the pieces between line feeds; the empty text gives one empty
  piece, and a trailing line feed gives a last empty piece. The recursion goes through
  the text once: a line feed starts a new piece, any other character joins the first
  piece of the rest (which always exists, see \<open>split_nl_not_Nil\<close>).
\<close>

fun split_nl :: "string \<Rightarrow> string list" where
  "split_nl [] = [[]]"
| "split_nl (c # cs) =
     (case split_nl cs of
        [] \<Rightarrow> [[c]]
      | l # ls \<Rightarrow> if c = newline then [] # l # ls else (c # l) # ls)"

text \<open>\<^verbatim>\<open>"\n".join(ls)\<close>\<close>

fun join_nl :: "string list \<Rightarrow> string" where
  "join_nl [] = []"
| "join_nl [l] = l"
| "join_nl (l # m # ls) = l @ newline # join_nl (m # ls)"

text \<open>
  \<^verbatim>\<open>s.strip()\<close>: Python strips the code points for which \<^verbatim>\<open>isspace()\<close> holds; below 256
  these are 9 to 13, 28 to 32, 133 and 160.
\<close>

definition isspace :: "char \<Rightarrow> bool" where
  "isspace c = (of_char c \<in> {9, 10, 11, 12, 13, 28, 29, 30, 31, 32, 133, 160 :: nat})"

definition strip :: "string \<Rightarrow> string" where
  "strip s = rev (dropWhile isspace (rev (dropWhile isspace s)))"

section \<open>Fence stripping in \<^verbatim>\<open>find_element\<close> (lines 107 to 120)\<close>

text \<open>
  The \<^verbatim>\<open>for line in lines\<close> loop with its two variables \<^verbatim>\<open>inside\<close> and \<^verbatim>\<open>json_lines\<close>.
  The branches are in the order of the source: the opening fence switches \<^verbatim>\<open>inside\<close> on
  (\<^verbatim>\<open>continue\<close>), a fence met while inside ends the loop (\<^verbatim>\<open>break\<close>), any other line is
  appended while inside and skipped otherwise.
\<close>

fun fence_loop :: "string list \<Rightarrow> bool \<Rightarrow> string list \<Rightarrow> string list" where
  "fence_loop [] inside json_lines = json_lines"
| "fence_loop (line # lines) inside json_lines =
     (if startswith line fence \<and> \<not> inside then fence_loop lines True json_lines
      else if startswith line fence \<and> inside then json_lines
      else if inside then fence_loop lines inside (json_lines @ [line])
      else fence_loop lines inside json_lines)"

definition strip_fence :: "string \<Rightarrow> string" where
  "strip_fence response_text =
     (if startswith response_text fence
      then join_nl (fence_loop (split_nl response_text) False [])
      else response_text)"

text \<open>
  The reading of the specification's sentence "the text between the first and last fence
  markers": the lines strictly after the first line that starts with a fence and strictly
  before the last such line, joined again. It is written from the specification, to be
  compared with \<^const>\<open>strip_fence\<close>.
\<close>

definition is_fence_line :: "string \<Rightarrow> bool" where
  "is_fence_line l = startswith l fence"

definition between_first_last_fence :: "string \<Rightarrow> string" where
  "between_first_last_fence r =
     join_nl (rev (drop 1 (dropWhile (\<lambda>l. \<not> is_fence_line l)
       (rev (drop 1 (dropWhile (\<lambda>l. \<not> is_fence_line l) (split_nl r)))))))"

section \<open>Media type inference (\<^verbatim>\<open>get_media_type\<close>, lines 48 to 58)\<close>

text \<open>
  \<^verbatim>\<open>s.lower()\<close> on code points below 256: the capital letters A to Z and the capital
  letters 192 to 222 except the multiplication sign 215 move up by 32.
\<close>

definition lower_char :: "char \<Rightarrow> char" where
  "lower_char c =
     (let n = (of_char c :: nat)
      in if (65 \<le> n \<and> n \<le> 90) \<or> (192 \<le> n \<and> n \<le> 222 \<and> n \<noteq> 215)
         then char_of (n + 32) else c)"

definition lower :: "string \<Rightarrow> string" where
  "lower s = map lower_char s"

text \<open>
  A Python \<^verbatim>\<open>dict\<close> is a list of key and value pairs in insertion order.
  \<^verbatim>\<open>d.get(k, default)\<close>, \<^verbatim>\<open>k in d\<close> and \<^verbatim>\<open>d[k] = v\<close> (which keeps the place of a key that
  is there and appends a new one):
\<close>

definition dict_get :: "(string \<times> 'v) list \<Rightarrow> string \<Rightarrow> 'v \<Rightarrow> 'v" where
  "dict_get d k dflt = (case map_of d k of None \<Rightarrow> dflt | Some v \<Rightarrow> v)"

definition dict_contains :: "(string \<times> 'v) list \<Rightarrow> string \<Rightarrow> bool" where
  "dict_contains d k = (case map_of d k of None \<Rightarrow> False | Some v \<Rightarrow> True)"

fun dict_set :: "(string \<times> 'v) list \<Rightarrow> string \<Rightarrow> 'v \<Rightarrow> (string \<times> 'v) list" where
  "dict_set [] k v = [(k, v)]"
| "dict_set ((k', v') # d) k v =
     (if k' = k then (k', v) # d else (k', v') # dict_set d k v)"

definition media_types :: "(string \<times> string) list" where
  "media_types =
     [(''.png'', ''image/png''),
      (''.jpg'', ''image/jpeg''),
      (''.jpeg'', ''image/jpeg''),
      (''.gif'', ''image/gif''),
      (''.webp'', ''image/webp'')]"

text \<open>
  \<^verbatim>\<open>Path(image_path).suffix\<close> is the standard library's; it is the parameter \<open>suffix\<close>.
\<close>

definition get_media_type :: "(string \<Rightarrow> string) \<Rightarrow> string \<Rightarrow> string" where
  "get_media_type suffix image_path =
     (let ext = lower (suffix image_path)
      in dict_get media_types ext ''image/png'')"

section \<open>Decoded JSON values and exceptions\<close>

text \<open>
  What \<^verbatim>\<open>json.loads\<close> returns: \<^verbatim>\<open>None\<close>, \<^verbatim>\<open>bool\<close>, \<^verbatim>\<open>int\<close>, \<^verbatim>\<open>float\<close>, \<^verbatim>\<open>str\<close>,
  \<^verbatim>\<open>list\<close> and \<^verbatim>\<open>dict\<close>. A float is kept as sign, mantissa and binary exponent (or as
  an infinity or a NaN); the program only ever tests one for being zero.
\<close>

datatype pyfloat = Finite bool nat int | Infinity bool | NaN

datatype json =
    JNull
  | JBool bool
  | JInt int
  | JFloat pyfloat
  | JString string
  | JArray "json list"
  | JObject "(string \<times> json) list"

text \<open>Python's truth value of a decoded value, as \<^verbatim>\<open>if result.get("found", False)\<close> takes it.\<close>

fun truthy :: "json \<Rightarrow> bool" where
  "truthy JNull = False"
| "truthy (JBool b) = b"
| "truthy (JInt n) = (n \<noteq> 0)"
| "truthy (JFloat (Finite s m e)) = (m \<noteq> 0)"
| "truthy (JFloat (Infinity s)) = True"
| "truthy (JFloat NaN) = True"
| "truthy (JString s) = (s \<noteq> [])"
| "truthy (JArray xs) = (xs \<noteq> [])"
| "truthy (JObject d) = (d \<noteq> [])"

fun type_name :: "json \<Rightarrow> string" where
  "type_name JNull = ''NoneType''"
| "type_name (JBool b) = ''bool''"
| "type_name (JInt n) = ''int''"
| "type_name (JFloat f) = ''float''"
| "type_name (JString s) = ''str''"
| "type_name (JArray xs) = ''list''"
| "type_name (JObject d) = ''dict''"

text \<open>
  The exceptions the handlers of \<^verbatim>\<open>main\<close> tell apart, each with its \<^verbatim>\<open>str(e)\<close>:
  \<^verbatim>\<open>anthropic.AuthenticationError\<close> (a subclass of \<^verbatim>\<open>anthropic.APIError\<close>), any other
  \<^verbatim>\<open>anthropic.APIError\<close>, \<^verbatim>\<open>json.JSONDecodeError\<close>, and any other \<^verbatim>\<open>Exception\<close>.
\<close>

datatype exn =
    AuthenticationError string
  | APIError string
  | JSONDecodeError string
  | OtherError string

text \<open>\<^verbatim>\<open>sub in s\<close> on two texts\<close>

fun contains_text :: "string \<Rightarrow> string \<Rightarrow> bool" where
  "contains_text [] sub = (sub = [])"
| "contains_text (c # cs) sub = (startswith (c # cs) sub \<or> contains_text cs sub)"

text \<open>
  \<^verbatim>\<open>"element" in result\<close> (line 125): a key test on a \<^verbatim>\<open>dict\<close>, a membership test on a
  \<^verbatim>\<open>list\<close>, a substring test on a \<^verbatim>\<open>str\<close>, and a \<^verbatim>\<open>TypeError\<close> on the others (the
  wording of the interpreter's messages is CPython 3.11's).
\<close>

fun element_in :: "json \<Rightarrow> exn + bool" where
  "element_in (JObject d) = Inr (dict_contains d ''element'')"
| "element_in (JArray xs) = Inr (List.member xs (JString ''element''))"
| "element_in (JString s) = Inr (contains_text s ''element'')"
| "element_in v =
     Inl (OtherError (''argument of type '' @ apostrophe # type_name v
        @ apostrophe # '' is not iterable''))"

text \<open>\<^verbatim>\<open>result["element"] = element_description\<close> (line 126)\<close>

fun set_element :: "json \<Rightarrow> string \<Rightarrow> exn + json" where
  "set_element (JObject d) element_description =
     Inr (JObject (dict_set d ''element'' (JString element_description)))"
| "set_element (JArray xs) element_description =
     Inl (OtherError ''list indices must be integers or slices, not str'')"
| "set_element v element_description =
     Inl (OtherError (apostrophe # type_name v
        @ apostrophe # '' object does not support item assignment''))"

text \<open>Lines 124 to 128: \<^verbatim>\<open>if "element" not in result: result["element"] = ...\<close>\<close>

definition ensure_element :: "json \<Rightarrow> string \<Rightarrow> exn + json" where
  "ensure_element result element_description =
     (case element_in result of
        Inl e \<Rightarrow> Inl e
      | Inr present \<Rightarrow>
          if \<not> present then set_element result element_description
          else Inr result)"

section \<open>The world outside the program\<close>

text \<open>
  One request of \<^verbatim>\<open>client.messages.create\<close>: the model name, the token budget, and the
  two content blocks (the image with its media type, and the text).
\<close>

record request =
  req_model :: string
  req_max_tokens :: nat
  req_media_type :: string
  req_data :: string
  req_text :: string

text \<open>
  What the program asks of the file system, of Pillow, of the Anthropic client and of the
  standard library, as parameters:
  \<^item> \<open>path_exists\<close>: \<^verbatim>\<open>Path(p).exists()\<close>;
  \<^item> \<open>path_suffix\<close>: \<^verbatim>\<open>Path(p).suffix\<close>;
  \<^item> \<open>anthropic_client\<close>: \<^verbatim>\<open>anthropic.Anthropic()\<close>, which returns a client or raises;
  \<^item> \<open>image_size\<close>: \<^verbatim>\<open>Image.open(p).size\<close>, which may raise;
  \<^item> \<open>file_base64\<close>: the base64 text of the file's bytes, or the exception of reading it;
  \<^item> \<open>messages_create\<close>: the remote call followed by \<^verbatim>\<open>response.content[0].text\<close>, or
    the exception either raises;
  \<^item> \<open>json_loads\<close>: \<^verbatim>\<open>json.loads\<close>, which returns the decoded value or raises;
  \<^item> \<open>repr_of\<close>: the text an f-string gives for a float, a list or a dict.
\<close>

record world =
  path_exists :: "string \<Rightarrow> bool"
  path_suffix :: "string \<Rightarrow> string"
  anthropic_client :: "exn + unit"
  image_size :: "string \<Rightarrow> exn + int \<times> int"
  file_base64 :: "string \<Rightarrow> exn + string"
  messages_create :: "request \<Rightarrow> exn + string"
  json_loads :: "string \<Rightarrow> exn + json"
  repr_of :: "json \<Rightarrow> string"

text \<open>\<^verbatim>\<open>str(n)\<close> of an \<^verbatim>\<open>int\<close>, and what an f-string puts for a decoded value.\<close>

fun str_nat :: "nat \<Rightarrow> string" where
  "str_nat n =
     (if n < 10 then [char_of (48 + n)]
      else str_nat (n div 10) @ [char_of (48 + n mod 10)])"

definition str_int :: "int \<Rightarrow> string" where
  "str_int i = (if i < 0 then CHR ''-'' # str_nat (nat (- i)) else str_nat (nat i))"

fun format_value :: "world \<Rightarrow> json \<Rightarrow> string" where
  "format_value w (JString s) = s"
| "format_value w (JInt n) = str_int n"
| "format_value w (JBool b) = (if b then ''True'' else ''False'')"
| "format_value w JNull = ''None''"
| "format_value w v = repr_of w v"

section \<open>\<^verbatim>\<open>find_element\<close> and \<^verbatim>\<open>describe_screen\<close>\<close>

definition get_image_dimensions :: "world \<Rightarrow> string \<Rightarrow> exn + int \<times> int" where
  "get_image_dimensions w image_path = image_size w image_path"

definition encode_image :: "world \<Rightarrow> string \<Rightarrow> exn + string" where
  "encode_image w image_path = file_base64 w image_path"

definition model_name :: string where
  "model_name = ''claude-sonnet-4-6''"

text \<open>The f-string of lines 67 to 78.\<close>

definition find_prompt :: "string \<Rightarrow> int \<Rightarrow> int \<Rightarrow> string" where
  "find_prompt element_description width height =
     ''Look at this screenshot. Find the UI element described as: ''
       @ apostrophe # element_description @ apostrophe # ''.\<newline>''
     @ ''Return JSON with these fields:\<newline>''
     @ ''  - found (bool): whether you can see the element\<newline>''
     @ ''  - x (int): pixel X coordinate of the element's center\<newline>''
     @ ''  - y (int): pixel Y coordinate of the element's center\<newline>''
     @ ''  - confidence (string): 'high', 'medium', or 'low'\<newline>''
     @ ''  - description (string): brief description of what you see at that location\<newline>''
     @ ''\<newline>''
     @ ''The image is '' @ str_int width @ ''x'' @ str_int height
       @ '' pixels. Coordinates should be within these bounds.\<newline>''
     @ ''Return ONLY valid JSON, no other text.''"

definition find_request :: "string \<Rightarrow> string \<Rightarrow> string \<Rightarrow> int \<Rightarrow> int \<Rightarrow> request" where
  "find_request media_type image_data element_description width height =
     \<lparr>req_model = model_name, req_max_tokens = 512, req_media_type = media_type,
      req_data = image_data,
      req_text = find_prompt element_description width height\<rparr>"

text \<open>
  Lines 104 to 128: the reply's text is stripped of white space, then of its fence, then
  decoded, and the \<^verbatim>\<open>element\<close> field is added when it is missing. An exception of
  \<^verbatim>\<open>json.loads\<close> leaves the function as it is.
\<close>

definition decode_reply :: "world \<Rightarrow> string \<Rightarrow> string \<Rightarrow> exn + json" where
  "decode_reply w element_description text =
     (let response_text = strip_fence (strip text)
      in case json_loads w response_text of
           Inl e \<Rightarrow> Inl e
         | Inr result \<Rightarrow> ensure_element result element_description)"

text \<open>
  \<^verbatim>\<open>find_element\<close>. Beside its result or exception it gives the requests it has sent, so
  that a claim about network activity can be stated.
\<close>

definition find_element :: "world \<Rightarrow> string \<Rightarrow> string \<Rightarrow> (exn + json) \<times> request list" where
  "find_element w image_path element_description =
     (case get_image_dimensions w image_path of
        Inl e \<Rightarrow> (Inl e, [])
      | Inr (width, height) \<Rightarrow>
          (case encode_image w image_path of
             Inl e \<Rightarrow> (Inl e, [])
           | Inr image_data \<Rightarrow>
               (let media_type = get_media_type (path_suffix w) image_path;
                    req = find_request media_type image_data element_description width height
                in case messages_create w req of
                     Inl e \<Rightarrow> (Inl e, [req])
                   | Inr text \<Rightarrow> (decode_reply w element_description text, [req]))))"

definition describe_prompt :: string where
  "describe_prompt =
     ''Describe what you see on this Linux desktop screenshot in 2-4 sentences. ''
     @ ''Include: what applications are open, what content is visible, any notable UI state.''"

definition describe_request :: "string \<Rightarrow> string \<Rightarrow> request" where
  "describe_request media_type image_data =
     \<lparr>req_model = model_name, req_max_tokens = 512, req_media_type = media_type,
      req_data = image_data, req_text = describe_prompt\<rparr>"

definition describe_screen :: "world \<Rightarrow> string \<Rightarrow> (exn + string) \<times> request list" where
  "describe_screen w image_path =
     (case encode_image w image_path of
        Inl e \<Rightarrow> (Inl e, [])
      | Inr image_data \<Rightarrow>
          (let media_type = get_media_type (path_suffix w) image_path;
               req = describe_request media_type image_data
           in case messages_create w req of
                Inl e \<Rightarrow> (Inl e, [req])
              | Inr text \<Rightarrow> (Inr (strip text), [req])))"

section \<open>The text of \<^verbatim>\<open>json.dumps\<close>\<close>

text \<open>
  \<^verbatim>\<open>json.dumps(v)\<close> with the default arguments, as every error path of \<^verbatim>\<open>main\<close> calls it:
  the separators are \<^verbatim>\<open>", "\<close> and \<^verbatim>\<open>": "\<close>, and a text is written between double quotes
  with the double quote, the backslash and every code point outside 32 to 126 escaped
  (\<^verbatim>\<open>ensure_ascii\<close>). The digits of a finite float are Python's \<^verbatim>\<open>repr\<close>, taken from the
  world.
\<close>

definition hex_digit :: "nat \<Rightarrow> char" where
  "hex_digit n = (if n < 10 then char_of (48 + n) else char_of (87 + n))"

definition escape_char :: "char \<Rightarrow> string" where
  "escape_char c =
     (let n = (of_char c :: nat)
      in if c = dq then [backslash, dq]
         else if c = backslash then [backslash, backslash]
         else if n = 8 then [backslash, CHR ''b'']
         else if n = 12 then [backslash, CHR ''f'']
         else if n = 10 then [backslash, CHR ''n'']
         else if n = 13 then [backslash, CHR ''r'']
         else if n = 9 then [backslash, CHR ''t'']
         else if n < 32 \<or> 126 < n
           then [backslash, CHR ''u'', CHR ''0'', CHR ''0'',
                 hex_digit (n div 16), hex_digit (n mod 16)]
         else [c])"

definition dumps_str :: "string \<Rightarrow> string" where
  "dumps_str s = dq # concat (map escape_char s) @ [dq]"

fun dumps_float :: "world \<Rightarrow> pyfloat \<Rightarrow> string" where
  "dumps_float w NaN = ''NaN''"
| "dumps_float w (Infinity negative) = (if negative then ''-Infinity'' else ''Infinity'')"
| "dumps_float w f = repr_of w (JFloat f)"

fun json_dumps :: "world \<Rightarrow> json \<Rightarrow> string"
  and dumps_items :: "world \<Rightarrow> json list \<Rightarrow> string"
  and dumps_pairs :: "world \<Rightarrow> (string \<times> json) list \<Rightarrow> string" where
  "json_dumps w JNull = ''null''"
| "json_dumps w (JBool b) = (if b then ''true'' else ''false'')"
| "json_dumps w (JInt n) = str_int n"
| "json_dumps w (JFloat f) = dumps_float w f"
| "json_dumps w (JString s) = dumps_str s"
| "json_dumps w (JArray xs) = ''['' @ dumps_items w xs @ '']''"
| "json_dumps w (JObject d) = ''{'' @ dumps_pairs w d @ ''}''"
| "dumps_items w [] = []"
| "dumps_items w [x] = json_dumps w x"
| "dumps_items w (x # y # xs) = json_dumps w x @ '', '' @ dumps_items w (y # xs)"
| "dumps_pairs w [] = []"
| "dumps_pairs w [(k, v)] = dumps_str k @ '': '' @ json_dumps w v"
| "dumps_pairs w ((k, v) # p # d) =
     dumps_str k @ '': '' @ json_dumps w v @ '', '' @ dumps_pairs w (p # d)"

section \<open>\<^verbatim>\<open>main\<close>\<close>

text \<open>
  The parsed command line: \<^verbatim>\<open>--image\<close> is required, \<^verbatim>\<open>--find\<close> is \<^verbatim>\<open>None\<close> when not
  given, the two flags are booleans. The model starts after \<^verbatim>\<open>parser.parse_args()\<close> and
  after the import checks at the top of the file.
\<close>

record args =
  arg_image :: string
  arg_find :: "string option"
  arg_describe :: bool
  arg_json :: bool

text \<open>
  One call of \<^verbatim>\<open>print\<close>: of a text, of \<^verbatim>\<open>json.dumps(v)\<close> (the text
  \<^const>\<open>json_dumps\<close> gives), or of \<^verbatim>\<open>json.dumps(v, indent=2)\<close> (the same value, laid out
  by the library over several lines).
\<close>

datatype printed = Print string | PrintJson json | PrintJsonIndent json

text \<open>
  How the process ends: what it printed on standard output, its exit code, the requests it
  sent, and the exception that no handler caught (Python then prints a traceback and
  exits with code 1).
\<close>

record outcome =
  stdout :: "printed list"
  exit_code :: int
  sent :: "request list"
  traceback :: "exn option"

text \<open>\<^verbatim>\<open>if args.find\<close>: given and not the empty text.\<close>

definition find_given :: "args \<Rightarrow> bool" where
  "find_given a = (case arg_find a of None \<Rightarrow> False | Some s \<Rightarrow> s \<noteq> [])"

definition error_object :: "string \<Rightarrow> bool \<Rightarrow> string \<Rightarrow> json" where
  "error_object flag b message = JObject [(flag, JBool b), (''error'', JString message)]"

text \<open>
  Lines 204 to 212: the text output of the find mode. \<^verbatim>\<open>result.get\<close> exists on a
  \<^verbatim>\<open>dict\<close> only; on any other value the first call raises \<^verbatim>\<open>AttributeError\<close>, before
  anything is printed.
\<close>

fun print_find_text :: "world \<Rightarrow> string \<Rightarrow> json \<Rightarrow> exn + printed list" where
  "print_find_text w query (JObject d) =
     (if truthy (dict_get d ''found'' (JBool False)) then
        Inr [Print (''Found: ''
               @ format_value w (dict_get d ''description'' (JString query))),
             Print (''Coordinates: (''
               @ format_value w (dict_get d ''x'' (JString ''?''))
               @ '', '' @ format_value w (dict_get d ''y'' (JString ''?''))
               @ '')''),
             Print (''Confidence: ''
               @ format_value w (dict_get d ''confidence'' (JString ''unknown''))),
             PrintJson (JObject d)]
      else Inr [Print (''Not found: '' @ query), PrintJson (JObject d)])"
| "print_find_text w query v =
     Inl (OtherError (apostrophe # type_name v
        @ apostrophe # '' object has no attribute 'get'' @ [apostrophe]))"

text \<open>Lines 200 to 212: the find mode, with \<^verbatim>\<open>--json\<close> or without.\<close>

definition find_mode :: "world \<Rightarrow> args \<Rightarrow> string \<Rightarrow> (exn + printed list) \<times> request list" where
  "find_mode w a query =
     (case find_element w (arg_image a) query of
        (Inl e, reqs) \<Rightarrow> (Inl e, reqs)
      | (Inr result, reqs) \<Rightarrow>
          (if arg_json a then (Inr [PrintJsonIndent result], reqs)
           else (print_find_text w query result, reqs)))"

text \<open>Lines 215 to 223: the describe mode.\<close>

definition describe_mode :: "world \<Rightarrow> args \<Rightarrow> (exn + printed list) \<times> request list" where
  "describe_mode w a =
     (case describe_screen w (arg_image a) of
        (Inl e, reqs) \<Rightarrow> (Inl e, reqs)
      | (Inr description, reqs) \<Rightarrow>
          (if arg_json a then
             (Inr [PrintJsonIndent (JObject [(''success'', JBool True),
                     (''description'', JString description), (''error'', JNull)])], reqs)
           else (Inr [Print description], reqs)))"

text \<open>Lines 225 to 236: the three handlers, in their order.\<close>

fun handler :: "exn \<Rightarrow> printed" where
  "handler (AuthenticationError m) =
     PrintJson (error_object ''found'' False (''Anthropic API error: '' @ m))"
| "handler (APIError m) =
     PrintJson (error_object ''found'' False (''Anthropic API error: '' @ m))"
| "handler (JSONDecodeError m) =
     PrintJson (error_object ''found'' False
       (''Failed to parse vision response as JSON: '' @ m))"
| "handler (OtherError m) =
     PrintJson (error_object ''found'' False (''Unexpected error: '' @ m))"

text \<open>
  Lines 198 to 223: the body of the \<^verbatim>\<open>try\<close>. \<^verbatim>\<open>if args.find\<close> holds for a text that is
  given and not empty; \<^verbatim>\<open>elif args.describe\<close> is the only other branch.
\<close>

definition elif_describe :: "world \<Rightarrow> args \<Rightarrow> (exn + printed list) \<times> request list" where
  "elif_describe w a = (if arg_describe a then describe_mode w a else (Inr [], []))"

definition run_mode :: "world \<Rightarrow> args \<Rightarrow> (exn + printed list) \<times> request list" where
  "run_mode w a =
     (case arg_find a of
        None \<Rightarrow> elif_describe w a
      | Some query \<Rightarrow> if query \<noteq> [] then find_mode w a query else elif_describe w a)"

definition main :: "world \<Rightarrow> args \<Rightarrow> outcome" where
  "main w a =
     (if \<not> path_exists w (arg_image a) then
        \<lparr>stdout = [PrintJson (error_object ''success'' False
            (''Image file not found: '' @ arg_image a))],
         exit_code = 1, sent = [], traceback = None\<rparr>
      else if \<not> find_given a \<and> \<not> arg_describe a then
        \<lparr>stdout = [PrintJson (error_object ''success'' False
            ''Specify --find 'element' or --describe'')],
         exit_code = 1, sent = [], traceback = None\<rparr>
      else case anthropic_client w of
             Inl (AuthenticationError m) \<Rightarrow>
               \<lparr>stdout = [PrintJson (error_object ''success'' False
                   ''ANTHROPIC_API_KEY not set or invalid'')],
                exit_code = 1, sent = [], traceback = None\<rparr>
           | Inl e \<Rightarrow> \<lparr>stdout = [], exit_code = 1, sent = [], traceback = Some e\<rparr>
           | Inr client \<Rightarrow>
               (case run_mode w a of
                  (Inl e, reqs) \<Rightarrow>
                    \<lparr>stdout = [handler e], exit_code = 1, sent = reqs, traceback = None\<rparr>
                | (Inr out, reqs) \<Rightarrow>
                    \<lparr>stdout = out, exit_code = 0, sent = reqs, traceback = None\<rparr>))"

section \<open>Example data\<close>

text \<open>
  Three replies of the remote model: a fenced object without an \<^verbatim>\<open>element\<close> field and
  with \<^verbatim>\<open>found\<close> false, a bare object that has an \<^verbatim>\<open>element\<close> field, and a sentence
  that is no JSON.
\<close>

definition text_found_false :: string where
  "text_found_false = ''{'' @ dq # ''found'' @ dq # '': false}''"

definition text_with_element :: string where
  "text_with_element =
     ''{'' @ dq # ''found'' @ dq # '': true, '' @ dq # ''element'' @ dq # '': ''
       @ dq # ''OK'' @ dq # ''}''"

definition reply_fenced :: string where
  "reply_fenced = ''```json\<newline>'' @ text_found_false @ ''\<newline>```\<newline>''"

definition reply_prose :: string where
  "reply_prose = ''I cannot see a Save button.''"

text \<open>
  A decoder for the examples: it knows the two object texts above and rejects every other
  text with the message \<^verbatim>\<open>json.loads\<close> gives for a text that starts with no value.
\<close>

definition example_table :: "(string \<times> json) list" where
  "example_table =
     [(text_found_false, JObject [(''found'', JBool False)]),
      (text_with_element, JObject [(''found'', JBool True), (''element'', JString ''OK'')])]"

definition example_loads :: "string \<Rightarrow> exn + json" where
  "example_loads s =
     (case map_of example_table s of
        None \<Rightarrow> Inl (JSONDecodeError ''Expecting value: line 1 column 1 (char 0)'')
      | Some v \<Rightarrow> Inr v)"

text \<open>
  A world for the examples: one screenshot \<^verbatim>\<open>/tmp/shot.png\<close> of 800 by 600 pixels, a
  client that is built without error, and a remote model that answers \<open>reply\<close> to every
  request.
\<close>

definition example_world :: "string \<Rightarrow> world" where
  "example_world reply =
     \<lparr>path_exists = (\<lambda>p. p = ''/tmp/shot.png''),
      path_suffix = (\<lambda>p. ''.png''),
      anthropic_client = Inr (),
      image_size = (\<lambda>p. Inr (800, 600)),
      file_base64 = (\<lambda>p. Inr ''iVBORw0KGgo=''),
      messages_create = (\<lambda>r. Inr reply),
      json_loads = example_loads,
      repr_of = (\<lambda>v. [])\<rparr>"

definition example_args :: "string \<Rightarrow> string option \<Rightarrow> bool \<Rightarrow> bool \<Rightarrow> args" where
  "example_args image_path query describe_flag json_flag =
     \<lparr>arg_image = image_path, arg_find = query, arg_describe = describe_flag,
      arg_json = json_flag\<rparr>"

section \<open>Facts about the text primitives\<close>

lemma startswith_append: "startswith (p @ t) p"
  by (induction p) auto

lemma startswith_iff: "startswith s p \<longleftrightarrow> (\<exists>t. s = p @ t)"
proof (induction s p rule: startswith.induct)
  case (3 c cs p ps)
  then show ?case by auto
qed auto

lemma split_nl_not_Nil: "split_nl s \<noteq> []"
  by (induction s) (auto split: list.splits)

lemma split_nl_hd_tl: "hd (split_nl s) # tl (split_nl s) = split_nl s"
  using split_nl_not_Nil by simp

lemma split_nl_Cons:
  "split_nl (c # cs) =
     (if c = newline then [] # split_nl cs
      else (c # hd (split_nl cs)) # tl (split_nl cs))"
  using split_nl_not_Nil [of cs] by (cases "split_nl cs") auto

lemma join_nl_Cons: "ls \<noteq> [] \<Longrightarrow> join_nl (l # ls) = l @ newline # join_nl ls"
  by (cases ls) auto

lemma join_split_nl: "join_nl (split_nl s) = s"
proof (induction s)
  case Nil
  show ?case by simp
next
  case (Cons c cs)
  obtain l ls where sp: "split_nl cs = l # ls"
    using split_nl_not_Nil by (cases "split_nl cs") auto
  show ?case
  proof (cases "c = newline")
    case True
    then show ?thesis using Cons by (simp add: sp)
  next
    case False
    then show ?thesis using Cons by (cases ls) (simp_all add: sp)
  qed
qed

declare split_nl.simps(2) [simp del]

lemma hd_split_nl_startswith:
  "startswith (hd (split_nl s)) fence \<longleftrightarrow> startswith s fence"
proof -
  have nl: "newline \<noteq> CHR ''`''" by (simp add: newline_def)
  have step: "\<And>s p. newline \<notin> set p \<Longrightarrow> startswith (hd (split_nl s)) p = startswith s p"
  proof -
    fix s p show "newline \<notin> set p \<Longrightarrow> startswith (hd (split_nl s)) p = startswith s p"
      by (induction s p rule: startswith.induct) (auto simp: split_nl_Cons)
  qed
  show ?thesis by (rule step) (simp add: fence_def nl)
qed

section \<open>Facts about the loop\<close>

lemma fence_loop_inside:
  "fence_loop ls True acc = acc @ takeWhile (\<lambda>l. \<not> startswith l fence) ls"
  by (induction ls arbitrary: acc) auto

lemma fence_loop_open:
  "startswith l fence \<Longrightarrow>
   fence_loop (l # ls) False [] = takeWhile (\<lambda>l. \<not> startswith l fence) ls"
  by (simp add: fence_loop_inside)

lemma strip_fence_lines:
  assumes "startswith r fence"
  shows "strip_fence r = join_nl (takeWhile (\<lambda>l. \<not> startswith l fence) (tl (split_nl r)))"
proof -
  have "startswith (hd (split_nl r)) fence"
    using assms by (simp add: hd_split_nl_startswith)
  then have "fence_loop (hd (split_nl r) # tl (split_nl r)) False []
      = takeWhile (\<lambda>l. \<not> startswith l fence) (tl (split_nl r))"
    by (rule fence_loop_open)
  then show ?thesis
    using assms by (simp add: strip_fence_def split_nl_hd_tl)
qed

lemma startswith_join_nl:
  assumes "newline \<notin> set p" "p \<noteq> []"
  shows "startswith (join_nl ls) p \<longleftrightarrow> ls \<noteq> [] \<and> startswith (hd ls) p"
proof (cases ls)
  case Nil
  then show ?thesis using assms by (cases p) auto
next
  case (Cons l ms)
  have app: "\<And>l t. startswith (l @ newline # t) p \<longleftrightarrow> startswith l p"
  proof -
    fix l t show "startswith (l @ newline # t) p \<longleftrightarrow> startswith l p"
      using assms(1) by (induction l p rule: startswith.induct) auto
  qed
  show ?thesis
  proof (cases ms)
    case Nil
    then show ?thesis using Cons by simp
  next
    case (Cons m ns)
    then show ?thesis using \<open>ls = l # ms\<close> by (simp add: app)
  qed
qed

lemma split_nl_append:
  "split_nl (a @ newline # b) = split_nl a @ split_nl b"
proof (induction a)
  case Nil
  show ?case by (simp add: split_nl_Cons)
next
  case (Cons c a)
  have "hd (split_nl a @ split_nl b) = hd (split_nl a)"
    and "tl (split_nl a @ split_nl b) = tl (split_nl a) @ split_nl b"
    using split_nl_not_Nil by simp_all
  with Cons show ?case by (simp add: split_nl_Cons)
qed

lemma split_nl_single: "newline \<notin> set a \<Longrightarrow> split_nl a = [a]"
  by (induction a) (auto simp: split_nl_Cons)

lemma not_startswith_fence_takeWhile:
  "\<not> startswith (join_nl (takeWhile (\<lambda>l. \<not> startswith l fence) ls)) fence"
proof
  let ?body = "takeWhile (\<lambda>l. \<not> startswith l fence) ls"
  assume "startswith (join_nl ?body) fence"
  moreover have "newline \<notin> set fence" and "fence \<noteq> []"
    by (simp_all add: fence_def newline_def)
  ultimately have ne: "?body \<noteq> []" and st: "startswith (hd ?body) fence"
    by (simp_all add: startswith_join_nl)
  from ne have "hd ?body \<in> set ?body" by simp
  then have "\<not> startswith (hd ?body) fence" by (auto dest: set_takeWhileD)
  with st show False by contradiction
qed

section \<open>Claims about fence stripping\<close>

text \<open>
  Claim C7. Fence stripping is idempotent: for every reply text, stripping the result of
  a first stripping again changes nothing. The step is lines 107 to 120 of
  \<^verbatim>\<open>find_element\<close>, as \<^const>\<open>strip_fence\<close>; the \<^verbatim>\<open>strip()\<close> of line 104 comes before it
  and is not part of it.
\<close>

theorem strip_fence_idempotent:
  "strip_fence (strip_fence r) = strip_fence r"
proof (cases "startswith r fence")
  case False
  then show ?thesis by (simp add: strip_fence_def)
next
  case True
  then have eq: "strip_fence r
      = join_nl (takeWhile (\<lambda>l. \<not> startswith l fence) (tl (split_nl r)))"
    by (rule strip_fence_lines)
  have "\<not> startswith (strip_fence r) fence"
    unfolding eq by (rule not_startswith_fence_takeWhile)
  then show ?thesis
    by (simp add: strip_fence_def [of "strip_fence r"])
qed

text \<open>
  Claim C10. A reply that starts with a fence and has no later line starting with a fence
  is still handled: the step has no raising operation (the model is a total function with
  no error branch), and its result is the lines after the opening line, joined by line
  feeds again. That is the whole text after the first line feed, and the empty text when
  the reply is the opening line alone.
\<close>

theorem strip_fence_unclosed:
  assumes "startswith r fence"
    and "list_all (\<lambda>l. \<not> is_fence_line l) (tl (split_nl r))"
  shows "strip_fence r = join_nl (tl (split_nl r))
    \<and> (\<forall>opener rest. newline \<notin> set opener \<and> r = opener @ newline # rest
          \<longrightarrow> strip_fence r = rest)
    \<and> (newline \<notin> set r \<longrightarrow> strip_fence r = [])"
proof -
  have "takeWhile (\<lambda>l. \<not> startswith l fence) (tl (split_nl r)) = tl (split_nl r)"
    using assms(2) by (simp add: list_all_iff is_fence_line_def)
  with strip_fence_lines [OF assms(1)]
  have main: "strip_fence r = join_nl (tl (split_nl r))"
    by (simp only:)
  have "strip_fence r = rest"
    if "newline \<notin> set opener" and "r = opener @ newline # rest" for opener rest
    using that main by (simp add: split_nl_append split_nl_single join_split_nl)
  moreover have "strip_fence r = []" if "newline \<notin> set r"
    using that main by (simp add: split_nl_single)
  ultimately show ?thesis using main by blast
qed

theorem strip_fence_unclosed_witness:
  "startswith (''```json'' @ newline # ''[1, 2]'') fence
   \<and> list_all (\<lambda>l. \<not> is_fence_line l) (tl (split_nl (''```json'' @ newline # ''[1, 2]'')))
   \<and> newline \<notin> set ''```json''
   \<and> strip_fence (''```json'' @ newline # ''[1, 2]'') = ''[1, 2]''"
proof -
  let ?r = "''```json'' @ newline # ''[1, 2]''"
  have a: "startswith ?r fence"
    by (simp add: fence_def)
  have b: "list_all (\<lambda>l. \<not> is_fence_line l) (tl (split_nl ?r))"
    by (simp add: is_fence_line_def fence_def newline_def split_nl.simps)
  have c: "newline \<notin> set ''```json''"
    by (simp add: newline_def)
  from strip_fence_unclosed [OF a b] c have "strip_fence ?r = ''[1, 2]''"
    by blast
  with a b c show ?thesis by blast
qed

text \<open>
  Claim C1, as stated: for a reply that starts with a fence line and has a closing fence,
  the step gives the text between the first and the last fence markers. The loop stops at
  the first fence line after the opening one, so a reply with a further fence line later
  on gives less than that: here the reply has the lines
  \<^verbatim>\<open>```\<close>, \<^verbatim>\<open>{}\<close>, \<^verbatim>\<open>```\<close>, \<^verbatim>\<open>note\<close>, \<^verbatim>\<open>```\<close>.
\<close>

theorem strip_fence_first_last_counterexample:
  "startswith (''```'' @ newline # ''{}'' @ newline # ''```'' @ newline # ''note''
      @ newline # ''```'') fence
   \<and> list_ex is_fence_line (tl (split_nl (''```'' @ newline # ''{}'' @ newline # ''```''
      @ newline # ''note'' @ newline # ''```'')))
   \<and> strip_fence (''```'' @ newline # ''{}'' @ newline # ''```'' @ newline # ''note''
      @ newline # ''```'') = ''{}''
   \<and> between_first_last_fence (''```'' @ newline # ''{}'' @ newline # ''```'' @ newline
      # ''note'' @ newline # ''```'') = ''{}'' @ newline # ''```'' @ newline # ''note''
   \<and> strip_fence (''```'' @ newline # ''{}'' @ newline # ''```'' @ newline # ''note''
      @ newline # ''```'')
     \<noteq> between_first_last_fence (''```'' @ newline # ''{}'' @ newline # ''```'' @ newline
      # ''note'' @ newline # ''```'')"
  by (simp add: strip_fence_def between_first_last_fence_def is_fence_line_def
      fence_def newline_def split_nl.simps)

text \<open>
  Claim C1, amended. When the reply's lines are an opening fence line (with or without a
  language tag), then lines that do not start with a fence, then a line that starts with a
  fence, the step gives exactly the lines in between, joined by line feeds, whatever
  follows the closing line. When no later line starts with a fence, this is the text
  between the first and the last fence lines of the reply.
\<close>

theorem strip_fence_first_block:
  assumes "split_nl r = opener # body @ closing # rest"
    and "is_fence_line opener"
    and "list_all (\<lambda>l. \<not> is_fence_line l) body"
    and "is_fence_line closing"
  shows "strip_fence r = join_nl body
    \<and> (list_all (\<lambda>l. \<not> is_fence_line l) rest
          \<longrightarrow> strip_fence r = between_first_last_fence r)"
proof -
  let ?P = "\<lambda>l. \<not> startswith l fence"
  have st: "startswith r fence"
    using assms(1,2) hd_split_nl_startswith [of r] by (simp add: is_fence_line_def)
  have body: "\<forall>l \<in> set body. ?P l"
    using assms(3) by (simp add: list_all_iff is_fence_line_def)
  have cl: "\<not> ?P closing"
    using assms(4) by (simp add: is_fence_line_def)
  have "takeWhile ?P (body @ closing # rest) = body"
    using body cl by (simp add: takeWhile_tail)
  then have main: "strip_fence r = join_nl body"
    using strip_fence_lines [OF st] assms(1) by simp
  have "between_first_last_fence r = join_nl body"
    if "list_all (\<lambda>l. \<not> is_fence_line l) rest"
  proof -
    have rest: "\<forall>l \<in> set (rev rest). ?P l"
      using that by (simp add: list_all_iff is_fence_line_def)
    have "dropWhile ?P (rev rest @ closing # rev body) = closing # rev body"
      using rest cl by (simp add: dropWhile_append)
    then show ?thesis
      using assms(1,2)
      by (simp add: between_first_last_fence_def is_fence_line_def)
  qed
  with main show ?thesis by simp
qed

theorem strip_fence_first_block_witness:
  "split_nl (''```json'' @ newline # ''[1,'' @ newline # ''2]'' @ newline # ''```'')
     = ''```json'' # [''[1,'', ''2]''] @ ''```'' # []
   \<and> is_fence_line ''```json''
   \<and> list_all (\<lambda>l. \<not> is_fence_line l) [''[1,'', ''2]'']
   \<and> is_fence_line ''```''
   \<and> strip_fence (''```json'' @ newline # ''[1,'' @ newline # ''2]'' @ newline # ''```'')
     = ''[1,'' @ newline # ''2]''
   \<and> between_first_last_fence
       (''```json'' @ newline # ''[1,'' @ newline # ''2]'' @ newline # ''```'')
     = ''[1,'' @ newline # ''2]''"
proof -
  let ?r = "''```json'' @ newline # ''[1,'' @ newline # ''2]'' @ newline # ''```''"
  have a: "split_nl ?r = ''```json'' # [''[1,'', ''2]''] @ ''```'' # []"
    by (simp add: newline_def split_nl.simps)
  have b: "is_fence_line ''```json''"
    by (simp add: is_fence_line_def fence_def)
  have c: "list_all (\<lambda>l. \<not> is_fence_line l) [''[1,'', ''2]'']"
    by (simp add: is_fence_line_def fence_def)
  have d: "is_fence_line ''```''"
    by (simp add: is_fence_line_def fence_def)
  have e: "list_all (\<lambda>l. \<not> is_fence_line l) []"
    by simp
  from strip_fence_first_block [OF a b c d] e
  have "strip_fence ?r = join_nl [''[1,'', ''2]'']"
    and "strip_fence ?r = between_first_last_fence ?r"
    by blast+
  then have "strip_fence ?r = ''[1,'' @ newline # ''2]''"
    and "between_first_last_fence ?r = ''[1,'' @ newline # ''2]''"
    by simp_all
  with a b c d show ?thesis by blast
qed

section \<open>Facts about dictionaries, \<^verbatim>\<open>find_element\<close> and \<^verbatim>\<open>main\<close>\<close>

lemma dict_set_absent: "map_of d k = None \<Longrightarrow> dict_set d k v = d @ [(k, v)]"
  by (induction d) (auto split: if_splits)

lemma ensure_element_object:
  "ensure_element (JObject d) q =
     Inr (JObject (if dict_contains d ''element'' then d else d @ [(''element'', JString q)]))"
  by (auto simp: ensure_element_def dict_contains_def dict_set_absent split: option.splits)

lemma find_element_reply:
  assumes "get_image_dimensions w p = Inr (width, height)"
    and "encode_image w p = Inr image_data"
    and "messages_create w
           (find_request (get_media_type (path_suffix w) p) image_data q width height)
         = Inr text"
  shows "find_element w p q =
     (decode_reply w q text,
      [find_request (get_media_type (path_suffix w) p) image_data q width height])"
  using assms by (simp add: find_element_def Let_def)

lemma main_find:
  assumes "path_exists w (arg_image a)"
    and "arg_find a = Some q" and "q \<noteq> []"
    and "anthropic_client w = Inr client"
  shows "main w a =
     (case find_mode w a q of
        (Inl e, reqs) \<Rightarrow>
          \<lparr>stdout = [handler e], exit_code = 1, sent = reqs, traceback = None\<rparr>
      | (Inr out, reqs) \<Rightarrow>
          \<lparr>stdout = out, exit_code = 0, sent = reqs, traceback = None\<rparr>)"
  using assms by (simp add: main_def run_mode_def find_given_def)

text \<open>The compact text of an error object has no line feed in it.\<close>

lemma hex_digit_not_newline: "n < 16 \<Longrightarrow> hex_digit n \<noteq> newline"
proof
  assume n: "n < 16" and eq: "hex_digit n = newline"
  have "(of_char (hex_digit n) :: nat) = (if n < 10 then 48 + n else 87 + n)"
    using n by (simp add: hex_digit_def)
  moreover have "(of_char newline :: nat) = 10" by (simp add: newline_def)
  ultimately show False using eq by (simp split: if_splits)
qed

lemma newline_code: "c = newline \<longleftrightarrow> (of_char c :: nat) = 10"
proof
  assume "c = newline"
  then show "(of_char c :: nat) = 10" by (simp add: newline_def)
next
  assume "(of_char c :: nat) = 10"
  then have "(of_char c :: nat) = of_char newline" by (simp add: newline_def)
  then show "c = newline" by (simp only: of_char_eq_iff)
qed

lemma escape_char_no_newline: "newline \<notin> set (escape_char c)"
proof -
  have "(of_char c :: nat) < 256" by simp
  then have d: "(of_char c :: nat) div 16 < 16" and m: "(of_char c :: nat) mod 16 < 16"
    by presburger+
  have fixed: "dq \<noteq> newline" "backslash \<noteq> newline" "CHR ''b'' \<noteq> newline"
    "CHR ''f'' \<noteq> newline" "CHR ''n'' \<noteq> newline" "CHR ''r'' \<noteq> newline"
    "CHR ''t'' \<noteq> newline" "CHR ''u'' \<noteq> newline" "CHR ''0'' \<noteq> newline"
    by (simp_all add: dq_def backslash_def newline_def)
  show ?thesis
  proof (cases "(of_char c :: nat) = 10")
    case True
    then show ?thesis
      using fixed by (auto simp: escape_char_def Let_def)
  next
    case False
    then have "c \<noteq> newline" by (simp add: newline_code)
    then show ?thesis
      using fixed hex_digit_not_newline [OF d] hex_digit_not_newline [OF m]
      by (auto simp: escape_char_def Let_def)
  qed
qed

lemma dumps_str_no_newline: "newline \<notin> set (dumps_str s)"
proof -
  have "dq \<noteq> newline" by (simp add: dq_def newline_def)
  then show ?thesis
    using escape_char_no_newline by (auto simp: dumps_str_def)
qed

lemma error_object_one_line: "newline \<notin> set (json_dumps w (error_object flag b m))"
proof -
  have "newline \<notin> set ''{''" "newline \<notin> set '': ''" "newline \<notin> set '', ''"
    "newline \<notin> set ''}''" "newline \<notin> set ''true''" "newline \<notin> set ''false''"
    by (simp_all add: newline_def)
  then show ?thesis
    using dumps_str_no_newline by (simp add: error_object_def)
qed

lemma dumps_str_plain:
  "list_all (\<lambda>c. c \<noteq> dq \<and> c \<noteq> backslash \<and> 32 \<le> (of_char c :: nat)
      \<and> (of_char c :: nat) \<le> 126) s
   \<Longrightarrow> dumps_str s = dq # s @ [dq]"
proof -
  assume a: "list_all (\<lambda>c. c \<noteq> dq \<and> c \<noteq> backslash \<and> 32 \<le> (of_char c :: nat)
      \<and> (of_char c :: nat) \<le> 126) s"
  have "concat (map escape_char s) = s"
    using a by (induction s) (auto simp: escape_char_def Let_def)
  then show ?thesis by (simp add: dumps_str_def)
qed

text \<open>The example world: what its parts answer.\<close>

lemmas example_simps =
  example_world_def example_loads_def example_table_def example_args_def
  text_found_false_def text_with_element_def reply_fenced_def reply_prose_def
  get_image_dimensions_def encode_image_def
  strip_def isspace_def strip_fence_def fence_def newline_def dq_def split_nl.simps

lemma example_dimensions:
  "get_image_dimensions (example_world reply) p = Inr (800, 600)"
  by (simp add: example_world_def get_image_dimensions_def)

lemma example_encode:
  "encode_image (example_world reply) p = Inr ''iVBORw0KGgo=''"
  by (simp add: example_world_def encode_image_def)

lemma example_create: "messages_create (example_world reply) r = Inr reply"
  by (simp add: example_world_def)

lemma example_client: "anthropic_client (example_world reply) = Inr ()"
  by (simp add: example_world_def)

lemma example_fenced_decoded:
  "json_loads (example_world reply) (strip_fence (strip reply_fenced))
     = Inr (JObject [(''found'', JBool False)])"
  by (simp add: example_simps)

lemma example_element_decoded:
  "json_loads (example_world reply) (strip_fence (strip text_with_element))
     = Inr (JObject [(''found'', JBool True), (''element'', JString ''OK'')])"
  by (simp add: example_simps)

lemma example_prose_rejected:
  "json_loads (example_world reply) (strip_fence (strip reply_prose))
     = Inl (JSONDecodeError ''Expecting value: line 1 column 1 (char 0)'')"
  by (simp add: example_simps)

section \<open>Claims about media types, the element field and the command line\<close>

text \<open>
  Claim C5. Media type inference: the lower-cased suffix of the image path is looked up in
  the table, so \<^verbatim>\<open>.jpg\<close> and \<^verbatim>\<open>.jpeg\<close> give \<^verbatim>\<open>image/jpeg\<close>, \<^verbatim>\<open>.gif\<close> gives
  \<^verbatim>\<open>image/gif\<close>, \<^verbatim>\<open>.webp\<close> gives \<^verbatim>\<open>image/webp\<close>, and \<^verbatim>\<open>.png\<close> and every other suffix
  (the empty one too) give \<^verbatim>\<open>image/png\<close>. It holds for every path and for every suffix
  function, so for the one of \<^verbatim>\<open>pathlib\<close>.
\<close>

theorem get_media_type_table:
  "get_media_type suffix p =
     (if lower (suffix p) = ''.jpg'' \<or> lower (suffix p) = ''.jpeg'' then ''image/jpeg''
      else if lower (suffix p) = ''.gif'' then ''image/gif''
      else if lower (suffix p) = ''.webp'' then ''image/webp''
      else ''image/png'')"
  by (simp add: get_media_type_def media_types_def dict_get_def Let_def)

theorem get_media_type_table_witness:
  "get_media_type (\<lambda>p. ''.JPG'') ''shot.JPG'' = ''image/jpeg''
   \<and> get_media_type (\<lambda>p. ''.jpeg'') ''shot.jpeg'' = ''image/jpeg''
   \<and> get_media_type (\<lambda>p. ''.gif'') ''shot.gif'' = ''image/gif''
   \<and> get_media_type (\<lambda>p. ''.webp'') ''shot.webp'' = ''image/webp''
   \<and> get_media_type (\<lambda>p. ''.png'') ''shot.png'' = ''image/png''
   \<and> get_media_type (\<lambda>p. ''.bmp'') ''shot.bmp'' = ''image/png''
   \<and> get_media_type (\<lambda>p. []) ''shot'' = ''image/png''"
proof -
  have "lower ''.JPG'' = ''.jpg''" "lower ''.jpeg'' = ''.jpeg''" "lower ''.gif'' = ''.gif''"
    "lower ''.webp'' = ''.webp''" "lower ''.png'' = ''.png''" "lower ''.bmp'' = ''.bmp''"
    "lower [] = []"
    by code_simp+
  then show ?thesis
    using get_media_type_table [of "\<lambda>p. ''.JPG''" "''shot.JPG''"]
    get_media_type_table [of "\<lambda>p. ''.jpeg''" "''shot.jpeg''"]
    get_media_type_table [of "\<lambda>p. ''.gif''" "''shot.gif''"]
    get_media_type_table [of "\<lambda>p. ''.webp''" "''shot.webp''"]
    get_media_type_table [of "\<lambda>p. ''.png''" "''shot.png''"]
    get_media_type_table [of "\<lambda>p. ''.bmp''" "''shot.bmp''"]
    get_media_type_table [of "\<lambda>p. []" "''shot''"]
    by simp
qed

text \<open>
  Claim C9. The step that adds the \<^verbatim>\<open>element\<close> field to a decoded object always returns
  an object; every key of the decoded object keeps its value; no key other than
  \<^verbatim>\<open>element\<close> is added or changed, so \<^verbatim>\<open>x\<close>, \<^verbatim>\<open>y\<close> and \<^verbatim>\<open>confidence\<close> stay absent when
  the reply left them out; an object that has \<^verbatim>\<open>element\<close> is returned as it is, and one
  that has not gets the one pair at its end.
\<close>

theorem ensure_element_frame:
  "\<exists>d'. ensure_element (JObject d) q = Inr (JObject d')
     \<and> (\<forall>k v. map_of d k = Some v \<longrightarrow> map_of d' k = Some v)
     \<and> (\<forall>k. k \<noteq> ''element'' \<longrightarrow> map_of d' k = map_of d k)
     \<and> (dict_contains d ''element'' \<longrightarrow> d' = d)
     \<and> (\<not> dict_contains d ''element'' \<longrightarrow> d' = d @ [(''element'', JString q)])"
  by (auto simp: ensure_element_object dict_contains_def map_add_def split: option.splits)

theorem ensure_element_frame_witness:
  "\<not> dict_contains [(''found'', JBool True), (''x'', JInt 10)] ''element''
   \<and> ensure_element (JObject [(''found'', JBool True), (''x'', JInt 10)]) ''Save''
     = Inr (JObject [(''found'', JBool True), (''x'', JInt 10), (''element'', JString ''Save'')])
   \<and> dict_contains [(''element'', JNull), (''found'', JBool False)] ''element''
   \<and> ensure_element (JObject [(''element'', JNull), (''found'', JBool False)]) ''Save''
     = Inr (JObject [(''element'', JNull), (''found'', JBool False)])"
proof -
  have a: "\<not> dict_contains [(''found'', JBool True), (''x'', JInt 10)] ''element''"
    by (simp add: dict_contains_def)
  have b: "dict_contains [(''element'', JNull), (''found'', JBool False)] ''element''"
    by (simp add: dict_contains_def)
  from ensure_element_frame [of "[(''found'', JBool True), (''x'', JInt 10)]" "''Save''"] a
  have c: "ensure_element (JObject [(''found'', JBool True), (''x'', JInt 10)]) ''Save''
     = Inr (JObject [(''found'', JBool True), (''x'', JInt 10), (''element'', JString ''Save'')])"
    by auto
  from ensure_element_frame [of "[(''element'', JNull), (''found'', JBool False)]" "''Save''"] b
  have d: "ensure_element (JObject [(''element'', JNull), (''found'', JBool False)]) ''Save''
     = Inr (JObject [(''element'', JNull), (''found'', JBool False)])"
    by auto
  from a b c d show ?thesis by blast
qed

text \<open>
  Claim C2. When the image can be read and the remote reply, stripped of white space and
  of its fence, decodes to a JSON object, \<^verbatim>\<open>find_element\<close> returns an object whose
  \<^verbatim>\<open>element\<close> field is the element description when the reply had no such field, and
  the reply's own value otherwise. It holds for every description, the non-empty ones
  among them.
\<close>

theorem find_element_element_field:
  assumes "get_image_dimensions w p = Inr (width, height)"
    and "encode_image w p = Inr image_data"
    and "messages_create w
           (find_request (get_media_type (path_suffix w) p) image_data q width height)
         = Inr text"
    and "json_loads w (strip_fence (strip text)) = Inr (JObject d)"
  shows "\<exists>d'. fst (find_element w p q) = Inr (JObject d')
     \<and> map_of d' ''element''
         = Some (case map_of d ''element'' of None \<Rightarrow> JString q | Some v \<Rightarrow> v)"
proof -
  have "fst (find_element w p q) = ensure_element (JObject d) q"
    using assms by (simp add: find_element_reply decode_reply_def)
  then show ?thesis
    by (auto simp: ensure_element_object dict_contains_def map_add_def split: option.splits)
qed

theorem find_element_element_field_witness:
  "json_loads (example_world reply_fenced) (strip_fence (strip reply_fenced))
     = Inr (JObject [(''found'', JBool False)])
   \<and> (\<exists>d'. fst (find_element (example_world reply_fenced) ''/tmp/shot.png'' ''Save'')
            = Inr (JObject d')
        \<and> map_of d' ''element'' = Some (JString ''Save''))
   \<and> json_loads (example_world text_with_element) (strip_fence (strip text_with_element))
     = Inr (JObject [(''found'', JBool True), (''element'', JString ''OK'')])
   \<and> (\<exists>d'. fst (find_element (example_world text_with_element) ''/tmp/shot.png'' ''Save'')
            = Inr (JObject d')
        \<and> map_of d' ''element'' = Some (JString ''OK''))"
proof -
  from find_element_element_field
    [OF example_dimensions example_encode example_create example_fenced_decoded]
  have "\<exists>d'. fst (find_element (example_world reply_fenced) ''/tmp/shot.png'' ''Save'')
            = Inr (JObject d')
        \<and> map_of d' ''element'' = Some (JString ''Save'')"
    by simp
  moreover
  from find_element_element_field
    [OF example_dimensions example_encode example_create example_element_decoded]
  have "\<exists>d'. fst (find_element (example_world text_with_element) ''/tmp/shot.png'' ''Save'')
            = Inr (JObject d')
        \<and> map_of d' ''element'' = Some (JString ''OK'')"
    by simp
  ultimately show ?thesis
    using example_fenced_decoded example_element_decoded by blast
qed

text \<open>
  Claim C3. In a find invocation whose remote reply, after fence stripping, is rejected by
  \<^verbatim>\<open>json.loads\<close> with a \<^verbatim>\<open>JSONDecodeError\<close>, \<^verbatim>\<open>find_element\<close> returns no result but raises
  that error, and the process prints one compact JSON object with \<^verbatim>\<open>found\<close> false and
  the message \<^verbatim>\<open>Failed to parse vision response as JSON: \<close> followed by the parse
  error's text, and exits with code 1. The printed text has no line feed in it, whatever
  the parse error's text is. It does so with and without \<^verbatim>\<open>--json\<close>.
\<close>

theorem malformed_reply_fails:
  assumes "path_exists w (arg_image a)"
    and "arg_find a = Some q" and "q \<noteq> []"
    and "anthropic_client w = Inr client"
    and "get_image_dimensions w (arg_image a) = Inr (width, height)"
    and "encode_image w (arg_image a) = Inr image_data"
    and "messages_create w
           (find_request (get_media_type (path_suffix w) (arg_image a)) image_data q
              width height)
         = Inr text"
    and "json_loads w (strip_fence (strip text)) = Inl (JSONDecodeError m)"
  shows "fst (find_element w (arg_image a) q) = Inl (JSONDecodeError m)
     \<and> main w a =
         \<lparr>stdout = [PrintJson (JObject [(''found'', JBool False),
              (''error'', JString (''Failed to parse vision response as JSON: '' @ m))])],
          exit_code = 1,
          sent = [find_request (get_media_type (path_suffix w) (arg_image a)) image_data q
                   width height],
          traceback = None\<rparr>
     \<and> newline \<notin> set (json_dumps w (JObject [(''found'', JBool False),
              (''error'', JString (''Failed to parse vision response as JSON: '' @ m))]))"
proof -
  have one_line: "newline \<notin> set (json_dumps w (JObject [(''found'', JBool False),
      (''error'', JString (''Failed to parse vision response as JSON: '' @ m))]))"
    using error_object_one_line
      [of w "''found''" False "''Failed to parse vision response as JSON: '' @ m"]
    by (simp add: error_object_def)
  have fe: "find_element w (arg_image a) q =
      (Inl (JSONDecodeError m),
       [find_request (get_media_type (path_suffix w) (arg_image a)) image_data q
          width height])"
    using assms(5-8) by (simp add: find_element_reply decode_reply_def)
  then have "find_mode w a q =
      (Inl (JSONDecodeError m),
       [find_request (get_media_type (path_suffix w) (arg_image a)) image_data q
          width height])"
    by (simp add: find_mode_def)
  then have "main w a =
      \<lparr>stdout = [handler (JSONDecodeError m)], exit_code = 1,
       sent = [find_request (get_media_type (path_suffix w) (arg_image a)) image_data q
                width height],
       traceback = None\<rparr>"
    using main_find [OF assms(1-4)] by simp
  with fe have "fst (find_element w (arg_image a) q) = Inl (JSONDecodeError m)
     \<and> main w a =
         \<lparr>stdout = [PrintJson (JObject [(''found'', JBool False),
              (''error'', JString (''Failed to parse vision response as JSON: '' @ m))])],
          exit_code = 1,
          sent = [find_request (get_media_type (path_suffix w) (arg_image a)) image_data q
                   width height],
          traceback = None\<rparr>"
    by (simp add: error_object_def)
  with one_line show ?thesis by blast
qed

theorem malformed_reply_fails_witness:
  "path_exists (example_world reply_prose) ''/tmp/shot.png''
   \<and> json_loads (example_world reply_prose) (strip_fence (strip reply_prose))
     = Inl (JSONDecodeError ''Expecting value: line 1 column 1 (char 0)'')
   \<and> fst (find_element (example_world reply_prose) ''/tmp/shot.png'' ''Save'')
     = Inl (JSONDecodeError ''Expecting value: line 1 column 1 (char 0)'')
   \<and> stdout (main (example_world reply_prose)
        (example_args ''/tmp/shot.png'' (Some ''Save'') False False))
     = [PrintJson (JObject [(''found'', JBool False),
          (''error'', JString (''Failed to parse vision response as JSON: ''
             @ ''Expecting value: line 1 column 1 (char 0)''))])]
   \<and> exit_code (main (example_world reply_prose)
        (example_args ''/tmp/shot.png'' (Some ''Save'') False False)) = 1
   \<and> newline \<notin> set (json_dumps (example_world reply_prose)
        (JObject [(''found'', JBool False),
          (''error'', JString (''Failed to parse vision response as JSON: ''
             @ ''Expecting value: line 1 column 1 (char 0)''))]))"
proof -
  let ?w = "example_world reply_prose"
  let ?a = "example_args ''/tmp/shot.png'' (Some ''Save'') False False"
  have p: "path_exists ?w (arg_image ?a)"
    by (simp add: example_world_def example_args_def)
  have f: "arg_find ?a = Some ''Save''" and n: "''Save'' \<noteq> []"
    by (simp_all add: example_args_def)
  have img: "arg_image ?a = ''/tmp/shot.png''"
    by (simp add: example_args_def)
  from malformed_reply_fails
    [OF p f n example_client example_dimensions example_encode example_create
      example_prose_rejected]
  have "fst (find_element ?w ''/tmp/shot.png'' ''Save'')
       = Inl (JSONDecodeError ''Expecting value: line 1 column 1 (char 0)'')"
    and "stdout (main ?w ?a)
       = [PrintJson (JObject [(''found'', JBool False),
            (''error'', JString (''Failed to parse vision response as JSON: ''
               @ ''Expecting value: line 1 column 1 (char 0)''))])]"
    and "exit_code (main ?w ?a) = 1"
    and "newline \<notin> set (json_dumps ?w
        (JObject [(''found'', JBool False),
          (''error'', JString (''Failed to parse vision response as JSON: ''
             @ ''Expecting value: line 1 column 1 (char 0)''))]))"
    by (simp_all only: img outcome.simps fst_conv simp_thms)
  then show ?thesis
    using p [unfolded img] example_prose_rejected by blast
qed

text \<open>
  Claim C6. When the image path does not exist, the process prints exactly the object
  with \<^verbatim>\<open>success\<close> false and the error \<^verbatim>\<open>Image file not found: \<close> followed by the
  path, and exits with code 1, whatever the mode flags are; it has built no client and
  sent no request. The printed text is the one of the specification, with the path's
  characters escaped as \<^verbatim>\<open>json.dumps\<close> escapes them.
\<close>

theorem image_missing:
  assumes "\<not> path_exists w (arg_image a)"
  shows "main w a =
     \<lparr>stdout = [PrintJson (JObject [(''success'', JBool False),
          (''error'', JString (''Image file not found: '' @ arg_image a))])],
      exit_code = 1, sent = [], traceback = None\<rparr>
     \<and> json_dumps w (JObject [(''success'', JBool False),
          (''error'', JString (''Image file not found: '' @ arg_image a))])
       = ''{'' @ dq # ''success'' @ dq # '': false, '' @ dq # ''error'' @ dq # '': ''
         @ dumps_str (''Image file not found: '' @ arg_image a) @ ''}''"
proof -
  have "dumps_str ''success'' = dq # ''success'' @ [dq]"
    and "dumps_str ''error'' = dq # ''error'' @ [dq]"
    by (rule dumps_str_plain, simp add: dq_def backslash_def)+
  then have "json_dumps w (JObject [(''success'', JBool False),
          (''error'', JString (''Image file not found: '' @ arg_image a))])
       = ''{'' @ dq # ''success'' @ dq # '': false, '' @ dq # ''error'' @ dq # '': ''
         @ dumps_str (''Image file not found: '' @ arg_image a) @ ''}''"
    by simp
  moreover have "main w a =
     \<lparr>stdout = [PrintJson (JObject [(''success'', JBool False),
          (''error'', JString (''Image file not found: '' @ arg_image a))])],
      exit_code = 1, sent = [], traceback = None\<rparr>"
    using assms by (simp add: main_def error_object_def)
  ultimately show ?thesis by blast
qed

theorem image_missing_witness:
  "\<not> path_exists (example_world reply_fenced) ''/nonexistent.png''
   \<and> main (example_world reply_fenced)
        (example_args ''/nonexistent.png'' (Some ''x'') False False)
     = \<lparr>stdout = [PrintJson (JObject [(''success'', JBool False),
           (''error'', JString ''Image file not found: /nonexistent.png'')])],
        exit_code = 1, sent = [], traceback = None\<rparr>
   \<and> json_dumps (example_world reply_fenced)
        (JObject [(''success'', JBool False),
           (''error'', JString ''Image file not found: /nonexistent.png'')])
     = ''{'' @ dq # ''success'' @ dq # '': false, '' @ dq # ''error'' @ dq # '': ''
       @ dq # ''Image file not found: /nonexistent.png'' @ dq # ''}''"
proof -
  let ?w = "example_world reply_fenced"
  let ?a = "example_args ''/nonexistent.png'' (Some ''x'') False False"
  have img: "arg_image ?a = ''/nonexistent.png''"
    by (simp add: example_args_def)
  have p: "\<not> path_exists ?w (arg_image ?a)"
    by (simp add: example_world_def example_args_def)
  have plain: "dumps_str ''Image file not found: /nonexistent.png''
      = dq # ''Image file not found: /nonexistent.png'' @ [dq]"
    by (rule dumps_str_plain) (simp add: dq_def backslash_def)
  from image_missing [OF p] show ?thesis
    using p plain by (simp add: img)
qed

text \<open>
  Claim C8. A describe invocation with \<^verbatim>\<open>--json\<close> (no find text given, or an empty one)
  whose image can be read and whose remote call returns a text prints the object with
  \<^verbatim>\<open>success\<close> true, \<^verbatim>\<open>description\<close> the reply stripped of white space at both ends, and
  \<^verbatim>\<open>error\<close> null, and exits with code 0.
\<close>

theorem describe_json_output:
  assumes "path_exists w (arg_image a)"
    and "\<not> find_given a" and "arg_describe a" and "arg_json a"
    and "anthropic_client w = Inr client"
    and "encode_image w (arg_image a) = Inr image_data"
    and "messages_create w
           (describe_request (get_media_type (path_suffix w) (arg_image a)) image_data)
         = Inr text"
  shows "main w a =
     \<lparr>stdout = [PrintJsonIndent (JObject [(''success'', JBool True),
          (''description'', JString (strip text)), (''error'', JNull)])],
      exit_code = 0,
      sent = [describe_request (get_media_type (path_suffix w) (arg_image a)) image_data],
      traceback = None\<rparr>"
proof -
  have "describe_screen w (arg_image a) =
      (Inr (strip text),
       [describe_request (get_media_type (path_suffix w) (arg_image a)) image_data])"
    using assms(6,7) by (simp add: describe_screen_def Let_def)
  then have "describe_mode w a =
      (Inr [PrintJsonIndent (JObject [(''success'', JBool True),
          (''description'', JString (strip text)), (''error'', JNull)])],
       [describe_request (get_media_type (path_suffix w) (arg_image a)) image_data])"
    using assms(4) by (simp add: describe_mode_def)
  moreover have "run_mode w a = describe_mode w a"
    using assms(2,3) by (auto simp: run_mode_def find_given_def elif_describe_def split: option.splits)
  ultimately show ?thesis
    using assms(1,3,5) by (simp add: main_def)
qed

theorem describe_json_output_witness:
  "path_exists (example_world ''  A terminal is open.\<newline>'') ''/tmp/shot.png''
   \<and> strip ''  A terminal is open.\<newline>'' = ''A terminal is open.''
   \<and> stdout (main (example_world ''  A terminal is open.\<newline>'')
        (example_args ''/tmp/shot.png'' None True True))
     = [PrintJsonIndent (JObject [(''success'', JBool True),
          (''description'', JString ''A terminal is open.''), (''error'', JNull)])]
   \<and> exit_code (main (example_world ''  A terminal is open.\<newline>'')
        (example_args ''/tmp/shot.png'' None True True)) = 0"
proof -
  let ?w = "example_world ''  A terminal is open.\<newline>''"
  let ?a = "example_args ''/tmp/shot.png'' None True True"
  have p: "path_exists ?w (arg_image ?a)"
    by (simp add: example_world_def example_args_def)
  have f: "\<not> find_given ?a" and d: "arg_describe ?a" and j: "arg_json ?a"
    by (simp_all add: example_args_def find_given_def)
  have s: "strip ''  A terminal is open.\<newline>'' = ''A terminal is open.''"
    by (simp add: strip_def isspace_def)
  have img: "arg_image ?a = ''/tmp/shot.png''"
    by (simp add: example_args_def)
  from describe_json_output [OF p f d j example_client example_encode example_create]
  show ?thesis
    using p s by (simp add: img)
qed

text \<open>
  Claim C4, as stated: every find invocation whose decoded reply has \<^verbatim>\<open>found\<close> false
  prints the line \<^verbatim>\<open>Not found: \<close> with the description and then a JSON line. With
  \<^verbatim>\<open>--json\<close> (line 201) the process prints the indented result alone, and no such line.
\<close>

theorem not_found_json_flag_counterexample:
  "arg_find (example_args ''/tmp/shot.png'' (Some ''Save'') False True) = Some ''Save''
   \<and> json_loads (example_world reply_fenced) (strip_fence (strip reply_fenced))
     = Inr (JObject [(''found'', JBool False)])
   \<and> stdout (main (example_world reply_fenced)
        (example_args ''/tmp/shot.png'' (Some ''Save'') False True))
     = [PrintJsonIndent
         (JObject [(''found'', JBool False), (''element'', JString ''Save'')])]
   \<and> stdout (main (example_world reply_fenced)
        (example_args ''/tmp/shot.png'' (Some ''Save'') False True))
     \<noteq> [Print ''Not found: Save'',
         PrintJson (JObject [(''found'', JBool False), (''element'', JString ''Save'')])]"
proof -
  let ?w = "example_world reply_fenced"
  let ?a = "example_args ''/tmp/shot.png'' (Some ''Save'') False True"
  have p: "path_exists ?w (arg_image ?a)"
    by (simp add: example_world_def example_args_def)
  have f: "arg_find ?a = Some ''Save''"
    by (simp add: example_args_def)
  have n: "''Save'' \<noteq> []" by simp
  have dec: "decode_reply ?w ''Save'' reply_fenced
      = Inr (JObject [(''found'', JBool False), (''element'', JString ''Save'')])"
    using example_fenced_decoded [of reply_fenced]
    by (simp add: decode_reply_def ensure_element_def dict_contains_def)
  have "\<exists>reqs. find_element ?w (arg_image ?a) ''Save''
      = (Inr (JObject [(''found'', JBool False), (''element'', JString ''Save'')]), reqs)"
    using find_element_reply [OF example_dimensions example_encode example_create,
        of reply_fenced "arg_image ?a" "''Save''"] dec
    by simp
  then obtain reqs where "find_element ?w (arg_image ?a) ''Save''
      = (Inr (JObject [(''found'', JBool False), (''element'', JString ''Save'')]), reqs)"
    by blast
  then have "find_mode ?w ?a ''Save''
      = (Inr [PrintJsonIndent
          (JObject [(''found'', JBool False), (''element'', JString ''Save'')])], reqs)"
    by (simp add: find_mode_def example_args_def)
  then have "stdout (main ?w ?a)
      = [PrintJsonIndent
          (JObject [(''found'', JBool False), (''element'', JString ''Save'')])]"
    using main_find [OF p f n example_client] by simp
  then show ?thesis
    using f example_fenced_decoded by simp
qed

text \<open>
  Claim C4, amended. A find invocation whose decoded reply is an object with \<^verbatim>\<open>found\<close>
  false or absent ends with exit code 0. Without \<^verbatim>\<open>--json\<close> it prints the line
  \<^verbatim>\<open>Not found: \<close> with the description, followed by the compact JSON of the result
  (the decoded object with its \<^verbatim>\<open>element\<close> field); with \<^verbatim>\<open>--json\<close> it prints the indented
  JSON of the result alone.
\<close>

theorem not_found_output:
  assumes "path_exists w (arg_image a)"
    and "arg_find a = Some q" and "q \<noteq> []"
    and "anthropic_client w = Inr client"
    and "get_image_dimensions w (arg_image a) = Inr (width, height)"
    and "encode_image w (arg_image a) = Inr image_data"
    and "messages_create w
           (find_request (get_media_type (path_suffix w) (arg_image a)) image_data q
              width height)
         = Inr text"
    and "json_loads w (strip_fence (strip text)) = Inr (JObject d)"
    and "map_of d ''found'' = None \<or> map_of d ''found'' = Some (JBool False)"
  shows "\<exists>d'. ensure_element (JObject d) q = Inr (JObject d')
     \<and> main w a =
         \<lparr>stdout = (if arg_json a then [PrintJsonIndent (JObject d')]
                    else [Print (''Not found: '' @ q), PrintJson (JObject d')]),
          exit_code = 0,
          sent = [find_request (get_media_type (path_suffix w) (arg_image a)) image_data q
                   width height],
          traceback = None\<rparr>"
proof -
  let ?d' = "if dict_contains d ''element'' then d else d @ [(''element'', JString q)]"
  let ?req = "find_request (get_media_type (path_suffix w) (arg_image a)) image_data q
                   width height"
  have ens: "ensure_element (JObject d) q = Inr (JObject ?d')"
    by (rule ensure_element_object)
  have fe: "find_element w (arg_image a) q = (Inr (JObject ?d'), [?req])"
    using assms(5-8) ens by (simp add: find_element_reply decode_reply_def)
  have found: "\<not> truthy (dict_get ?d' ''found'' (JBool False))"
    using assms(9) by (auto simp: dict_get_def dict_contains_def map_add_def split: option.splits)
  have "find_mode w a q =
      (Inr (if arg_json a then [PrintJsonIndent (JObject ?d')]
            else [Print (''Not found: '' @ q), PrintJson (JObject ?d')]), [?req])"
    using fe found by (simp add: find_mode_def)
  then have "main w a =
      \<lparr>stdout = (if arg_json a then [PrintJsonIndent (JObject ?d')]
                 else [Print (''Not found: '' @ q), PrintJson (JObject ?d')]),
       exit_code = 0, sent = [?req], traceback = None\<rparr>"
    using main_find [OF assms(1-4)] by simp
  with ens show ?thesis by blast
qed

theorem not_found_output_witness:
  "json_loads (example_world reply_fenced) (strip_fence (strip reply_fenced))
     = Inr (JObject [(''found'', JBool False)])
   \<and> stdout (main (example_world reply_fenced)
        (example_args ''/tmp/shot.png'' (Some ''Save'') False False))
     = [Print ''Not found: Save'',
        PrintJson (JObject [(''found'', JBool False), (''element'', JString ''Save'')])]
   \<and> exit_code (main (example_world reply_fenced)
        (example_args ''/tmp/shot.png'' (Some ''Save'') False False)) = 0
   \<and> stdout (main (example_world reply_fenced)
        (example_args ''/tmp/shot.png'' (Some ''Save'') False True))
     = [PrintJsonIndent
         (JObject [(''found'', JBool False), (''element'', JString ''Save'')])]
   \<and> exit_code (main (example_world reply_fenced)
        (example_args ''/tmp/shot.png'' (Some ''Save'') False True)) = 0"
proof -
  let ?w = "example_world reply_fenced"
  let ?d = "[(''found'', JBool False)]"
  have ens: "ensure_element (JObject ?d) ''Save''
      = Inr (JObject [(''found'', JBool False), (''element'', JString ''Save'')])"
    by (simp add: ensure_element_def dict_contains_def)
  have fnd: "map_of ?d ''found'' = None \<or> map_of ?d ''found'' = Some (JBool False)"
    by simp
  have n: "''Save'' \<noteq> []" by simp
  have text_mode: "stdout (main ?w (example_args ''/tmp/shot.png'' (Some ''Save'') False False))
       = [Print ''Not found: Save'',
          PrintJson (JObject [(''found'', JBool False), (''element'', JString ''Save'')])]
     \<and> exit_code (main ?w (example_args ''/tmp/shot.png'' (Some ''Save'') False False)) = 0"
  proof -
    let ?a = "example_args ''/tmp/shot.png'' (Some ''Save'') False False"
    have p: "path_exists ?w (arg_image ?a)"
      by (simp add: example_world_def example_args_def)
    have f: "arg_find ?a = Some ''Save''"
      by (simp add: example_args_def)
    have j: "\<not> arg_json ?a"
      by (simp add: example_args_def)
    from not_found_output
      [OF p f n example_client example_dimensions example_encode example_create
        example_fenced_decoded fnd]
    show ?thesis using ens j by auto
  qed
  have json_mode: "stdout (main ?w (example_args ''/tmp/shot.png'' (Some ''Save'') False True))
       = [PrintJsonIndent
           (JObject [(''found'', JBool False), (''element'', JString ''Save'')])]
     \<and> exit_code (main ?w (example_args ''/tmp/shot.png'' (Some ''Save'') False True)) = 0"
  proof -
    let ?a = "example_args ''/tmp/shot.png'' (Some ''Save'') False True"
    have p: "path_exists ?w (arg_image ?a)"
      by (simp add: example_world_def example_args_def)
    have f: "arg_find ?a = Some ''Save''"
      by (simp add: example_args_def)
    have j: "arg_json ?a"
      by (simp add: example_args_def)
    from not_found_output
      [OF p f n example_client example_dimensions example_encode example_create
        example_fenced_decoded fnd]
    show ?thesis using ens j by auto
  qed
  from text_mode json_mode example_fenced_decoded show ?thesis by blast
qed

end
